theory Spec2Isabelle
  imports Main
begin

section \<open>Characters and C strings\<close>

text \<open>
  A \<^verbatim>\<open>const char *\<close> argument is modelled by the list of bytes it points to. C reads such
  an argument only up to the first NUL byte, so every function that receives a C string
  starts from \<open>cstr\<close> of it. Inside a function a pointer into the string is either an index
  or the pair of the bytes before it and the bytes from it on; the empty remainder stands
  for the terminating NUL.
\<close>

definition NUL :: char where
  "NUL = CHR 0x00"

definition cstr :: "string \<Rightarrow> string" where
  "cstr s = takeWhile (\<lambda>c. c \<noteq> NUL) s"

text \<open>
  The classification functions of \<^verbatim>\<open>ctype.h\<close> in the "C" locale (the program never calls
  \<^verbatim>\<open>setlocale\<close>): bytes outside ASCII belong to no class.
\<close>

definition isspace :: "char \<Rightarrow> bool" where
  "isspace c = (c \<in> set [CHR 0x20, CHR 0x09, CHR 0x0A, CHR 0x0B, CHR 0x0C, CHR 0x0D])"

definition isdigit :: "char \<Rightarrow> bool" where
  "isdigit c = (c \<in> set ''0123456789'')"

definition isalnum :: "char \<Rightarrow> bool" where
  "isalnum c = (c \<in> set ''0123456789ABCDEFGHIJKLMNOPQRSTUVWXYZabcdefghijklmnopqrstuvwxyz'')"

section \<open>The whitespace squeezer \<^verbatim>\<open>sqzdup\<close>\<close>

text \<open>
  The main loop of \<^verbatim>\<open>sqzdup\<close>. The read pointer \<^verbatim>\<open>p\<close> is the pair \<open>bef\<close> (the bytes
  from \<^verbatim>\<open>source\<close> up to \<^verbatim>\<open>p\<close>) and the remaining bytes; \<^verbatim>\<open>p > source\<close> is
  \<open>bef \<noteq> []\<close> and \<^verbatim>\<open>*(p - 1)\<close> is \<open>last bef\<close>. The write pointer \<^verbatim>\<open>d\<close> is the list
  \<open>out\<close> of the bytes written so far. The look-ahead pointer \<^verbatim>\<open>nc\<close> starts at \<^verbatim>\<open>p\<close>.
\<close>

fun sqz_scan :: "string \<Rightarrow> string \<Rightarrow> bool \<Rightarrow> string \<Rightarrow> string" where
  "sqz_scan bef [] lc out = out"
| "sqz_scan bef (c # rest) lc out =
     (if isspace c then
        (if \<not> lc then
           (if bef \<noteq> [] then
              (if isalnum (last bef) then sqz_scan (bef @ [c]) rest True (out @ [CHR 0x20])
               else
                 (let nc = dropWhile isspace (c # rest) in
                  if nc \<noteq> [] \<and> isalnum (hd nc)
                  then sqz_scan (bef @ [c]) rest True (out @ [CHR 0x20])
                  else sqz_scan (bef @ [c]) rest True out))
            else sqz_scan (bef @ [c]) rest True out)
         else sqz_scan (bef @ [c]) rest lc out)
      else sqz_scan (bef @ [c]) rest False (out @ [c]))"

text \<open>
  \<^verbatim>\<open>sqzdup\<close>: skip the leading whitespace, run the loop, terminate the output and
  overwrite one trailing whitespace byte by NUL.
\<close>

definition sqzdup :: "string \<Rightarrow> string" where
  "sqzdup source =
     (let s = cstr source;
          out = sqz_scan (takeWhile isspace s) (dropWhile isspace s) False []
      in if out \<noteq> [] \<and> isspace (last out) then butlast out else out)"

text \<open>
  Two auxiliary notions used to reason about the squeezer. \<open>sqz pv rest lc\<close> is the text the
  loop appends when the byte before the read pointer is \<open>pv\<close>. \<open>nf q t\<close> says that \<open>t\<close>,
  read after the byte \<open>q\<close>, is squeezed: each whitespace byte is one blank standing between
  two non-blank bytes of which one is alphanumeric. \<open>nfw\<close> is the same, but allows the text
  to end in a blank.
\<close>

fun sqz :: "char option \<Rightarrow> string \<Rightarrow> bool \<Rightarrow> string" where
  "sqz pv [] lc = []"
| "sqz pv (c # rest) lc =
     (if isspace c then
        (if \<not> lc \<and> pv \<noteq> None \<and>
            (isalnum (the pv) \<or>
             (let nc = dropWhile isspace rest in nc \<noteq> [] \<and> isalnum (hd nc)))
         then CHR 0x20 # sqz (Some c) rest True
         else sqz (Some c) rest True)
      else c # sqz (Some c) rest False)"

fun nf :: "char \<Rightarrow> string \<Rightarrow> bool" where
  "nf q [] = True"
| "nf q (c # cs) =
     (if isspace c
      then c = CHR 0x20 \<and> cs \<noteq> [] \<and> \<not> isspace (hd cs) \<and> (isalnum q \<or> isalnum (hd cs)) \<and> nf c cs
      else nf c cs)"

fun nfw :: "char \<Rightarrow> string \<Rightarrow> bool" where
  "nfw q [] = True"
| "nfw q (c # cs) =
     (if isspace c
      then c = CHR 0x20 \<and>
           (cs = [] \<or> (\<not> isspace (hd cs) \<and> (isalnum q \<or> isalnum (hd cs)))) \<and> nfw c cs
      else nfw c cs)"

definition trim1 :: "string \<Rightarrow> string" where
  "trim1 out = (if out \<noteq> [] \<and> isspace (last out) then butlast out else out)"



section \<open>Output, integers and the list stack\<close>

definition NL :: char where
  "NL = CHR 0x0A"

definition TAB :: char where
  "TAB = CHR 0x09"

definition BS :: char where
  "BS = CHR 0x5C"

definition DQ :: char where
  "DQ = CHR 0x22"

definition SQ :: char where
  "SQ = CHR 0x27"

datatype macropackage_t = mp_mm | mp_man | mp_mdoc | mp_mom

datatype element = none
  | par_end | ln_brk
  | cblock_end | cblock_open
  | li_open | li_end
  | ol_open | ul_open | lst_close
  | man_ref | ol | ul
  | bq_open | bq_close
  | box_open | box_close
  | url_mark
  | new_sh | new_ss | new_s4

text \<open>
  The global state of the program: the list stack (two arrays of \<open>MAX_LIST_SIZE\<close> entries
  and the index of the first free entry) and the two output streams. An array is a function
  from indices; an access is in range when the index is below \<open>MAX_LIST_SIZE\<close>, and an
  access out of range is undefined behaviour, which \<open>roff\<close> reports as \<open>None\<close>.
\<close>

definition MAX_LIST_SIZE :: nat where
  "MAX_LIST_SIZE = 32"

record globals =
  stk_list :: "nat \<Rightarrow> element"
  stk_count :: "nat \<Rightarrow> int"
  stk_list_p :: nat
  stdout :: string
  stderr :: string

definition prints :: "string \<Rightarrow> globals \<Rightarrow> globals" where
  "prints s g = g\<lparr>stdout := stdout g @ s\<rparr>"

definition puts :: "string \<Rightarrow> globals \<Rightarrow> globals" where
  "puts s g = prints (cstr s @ [NL]) g"

text \<open>An \<^verbatim>\<open>int\<close> holds 32 bits; a value out of range wraps around.\<close>

definition wrap32 :: "int \<Rightarrow> int" where
  "wrap32 i = (i + 2147483648) mod 4294967296 - 2147483648"

text \<open>The conversions \<^verbatim>\<open>%d\<close> and \<^verbatim>\<open>%02d\<close> of \<^verbatim>\<open>printf\<close>.\<close>

fun show_nat :: "nat \<Rightarrow> string" where
  "show_nat n = (if n < 10 then [''0123456789'' ! n]
                 else show_nat (n div 10) @ [''0123456789'' ! (n mod 10)])"

declare show_nat.simps [simp del]

definition show_int :: "int \<Rightarrow> string" where
  "show_int i = (if i < 0 then CHR ''-'' # show_nat (nat (- i)) else show_nat (nat i))"

definition show_int02 :: "int \<Rightarrow> string" where
  "show_int02 i = (let s = show_int i in if length s < 2 then CHR ''0'' # s else s)"

text \<open>
  \<^verbatim>\<open>atoi\<close> on a string of decimal digits: the number they denote, cut to 32 bits by the
  conversion to \<^verbatim>\<open>int\<close>.
\<close>

definition digit_val :: "char \<Rightarrow> int" where
  "digit_val c = int (of_char c) - 48"

definition atoi :: "string \<Rightarrow> int" where
  "atoi num = wrap32 (foldl (\<lambda>a c. 10 * a + digit_val c) 0 (takeWhile isdigit (cstr num)))"

text \<open>
  \<^verbatim>\<open>strchr\<close> on the bytes from a pointer on: the offset of the first occurrence.
  \<^verbatim>\<open>strrchr\<close> gives the offset of the last one. \<^verbatim>\<open>println\<close> prints up to and including
  the first newline, or up to the end of the string; \<open>println_text\<close> is what it prints, and
  the pointer it returns is advanced by that many bytes.
\<close>

definition strchr :: "string \<Rightarrow> char \<Rightarrow> nat option" where
  "strchr s c = (if c \<in> set s then Some (length (takeWhile (\<lambda>x. x \<noteq> c) s)) else None)"

definition strrchr :: "string \<Rightarrow> char \<Rightarrow> nat option" where
  "strrchr s c =
     (if c \<in> set s then Some (length s - 1 - length (takeWhile (\<lambda>x. x \<noteq> c) (rev s))) else None)"

definition println_text :: "string \<Rightarrow> string" where
  "println_text s =
     (let l = takeWhile (\<lambda>c. c \<noteq> NL) s in if length l < length s then l @ [NL] else l)"

definition at :: "string \<Rightarrow> nat \<Rightarrow> char" where
  "at s i = (if i < length s then s ! i else NUL)"

section \<open>The backend emitter \<^verbatim>\<open>roff\<close>\<close>

text \<open>
  \<open>roff mp type args g\<close> is the call \<^verbatim>\<open>roff(type, args...)\<close> with the global \<^verbatim>\<open>mpack\<close>
  equal to \<open>mp\<close>. The variable arguments are the list \<open>args\<close>; reading an argument that
  was not passed is undefined.
\<close>

definition stk_push :: "element \<Rightarrow> globals \<Rightarrow> globals" where
  "stk_push k g = g\<lparr>stk_list := (stk_list g)(stk_list_p g := k),
                    stk_count := (stk_count g)(stk_list_p g := 1),
                    stk_list_p := stk_list_p g + 1\<rparr>"

definition roff_li_open_man :: "globals \<Rightarrow> globals option" where
  "roff_li_open_man g =
     (if stk_list_p g \<noteq> 0 then
        (if stk_list_p g - 1 < MAX_LIST_SIZE then
           (if stk_list g (stk_list_p g - 1) = ul
            then Some (puts (''.IP '' @ [BS] @ ''(bu 4'') g)
            else
              (let g1 = prints (''.IP '' @ show_int (stk_count g (stk_list_p g - 1)) @ ''. 4'' @ [NL]) g
               in Some (g1\<lparr>stk_count := (stk_count g1)
                        (stk_list_p g - 1 := wrap32 (stk_count g (stk_list_p g - 1) + 1))\<rparr>)))
         else None)
      else Some g)"

fun roff :: "macropackage_t \<Rightarrow> element \<Rightarrow> string list \<Rightarrow> globals \<Rightarrow> globals option" where
  "roff mp par_end args g =
     Some (case mp of mp_mdoc \<Rightarrow> puts ''.Pp'' g | _ \<Rightarrow> puts ''.PP'' g)"
| "roff mp ln_brk args g =
     Some (case mp of mp_mom \<Rightarrow> puts ''.BR'' g | _ \<Rightarrow> puts ''.br'' g)"
| "roff mp url_mark args g =
     (case args of
        title # link # _ \<Rightarrow>
          (let title = cstr title; link = cstr link in
           Some (case mp of
             mp_man \<Rightarrow>
               (if CHR ''@'' \<in> set link
                then prints (''.MT '' @ link @ [NL] @ title @ [NL] @ ''.ME'' @ [NL]) g
                else prints (''.UR '' @ link @ [NL] @ title @ [NL] @ ''.UE'' @ [NL]) g)
           | mp_mdoc \<Rightarrow>
               (if CHR ''@'' \<in> set link
                then prints (''.An '' @ title @ '' Aq Mt '' @ link @ [NL]) g
                else prints (''.Lk '' @ link @ '' '' @ [DQ] @ title @ [DQ] @ [NL]) g)
           | mp_mm \<Rightarrow> prints (title @ '' <'' @ link @ ''>'' @ [NL]) g
           | mp_mom \<Rightarrow>
               prints (title @ '' '' @ [BS] @ ''*[UL]'' @ link @ [BS] @ ''*[ULX]'' @ [NL]) g))
      | _ \<Rightarrow> None)"
| "roff mp box_open args g =
     Some (case mp of mp_mom \<Rightarrow> puts ''.DRH'' g | mp_man \<Rightarrow> puts ''.B'' g | _ \<Rightarrow> puts ''.FT B'' g)"
| "roff mp box_close args g =
     Some (case mp of mp_mom \<Rightarrow> puts ''.DRH'' g | _ \<Rightarrow> puts ''.FT P'' g)"
| "roff mp cblock_open args g =
     Some (case mp of
        mp_mom \<Rightarrow> prints (''.CODE'' @ [NL]) g
      | mp_mdoc \<Rightarrow> prints (''.Bd -literal -offset indent'' @ [NL]) g
      | _ \<Rightarrow> prints (''.RS 4'' @ [NL] @ ''.EX'' @ [NL]) g)"
| "roff mp cblock_end args g =
     Some (case mp of
        mp_mom \<Rightarrow> prints (''.CODE OFF'' @ [NL]) g
      | mp_mdoc \<Rightarrow> prints (''.Ed'' @ [NL]) g
      | _ \<Rightarrow> prints ([NL] @ ''.EE'' @ [NL] @ ''.RE'' @ [NL]) g)"
| "roff mp ol_open args g =
     (if stk_list_p g < MAX_LIST_SIZE then
        (let g1 = stk_push ol g in
         Some (case mp of
            mp_mom \<Rightarrow>
              (if stk_list_p g1 = 1 then puts ''.LIST DIGIT'' g1
               else if stk_list_p g1 = 2 then puts ''.LIST ALPHA'' g1
               else if stk_list_p g1 = 3 then puts ''.LIST DIGIT'' g1
               else if stk_list_p g1 = 4 then puts ''.LIST alpha'' g1
               else puts ''.LIST DIGIT'' g1)
          | mp_mdoc \<Rightarrow> puts ''.Bl -enum -offset indent'' g1
          | mp_mm \<Rightarrow> puts ''.AL'' g1
          | mp_man \<Rightarrow> g1))
      else None)"
| "roff mp ul_open args g =
     (if stk_list_p g < MAX_LIST_SIZE then
        (let g1 = stk_push ul g in
         Some (case mp of
            mp_mom \<Rightarrow>
              prints (''.LIST '' @ (if stk_list_p g1 mod 2 \<noteq> 0 then ''BULLET'' else ''DASH'')) g1
          | mp_mdoc \<Rightarrow>
              prints (''.Bl -'' @ (if stk_list_p g1 mod 2 \<noteq> 0 then ''bullet'' else ''dash'')
                      @ '' -offset indent'') g1
          | mp_mm \<Rightarrow> puts ''.BL'' g1
          | mp_man \<Rightarrow> g1))
      else None)"
| "roff mp lst_close args g =
     Some (case mp of mp_mom \<Rightarrow> puts ''.LIST OFF'' g | mp_mdoc \<Rightarrow> puts ''.El'' g | _ \<Rightarrow> g)"
| "roff mp li_open args g =
     (case mp of
        mp_mom \<Rightarrow> Some (puts ''.ITEM'' g)
      | mp_mdoc \<Rightarrow> Some (puts ''.It'' g)
      | mp_man \<Rightarrow> roff_li_open_man g
      | mp_mm \<Rightarrow> Some (puts ''.LI'' g))"
| "roff mp li_end args g =
     Some (if mp = mp_mm then puts ''.LE'' g else g)"
| "roff mp new_sh args g =
     Some (case mp of
        mp_mom \<Rightarrow> prints (''.HEADING 1 '' @ [DQ]) g
      | mp_mdoc \<Rightarrow> prints ''.Sh '' g
      | _ \<Rightarrow> prints ''.SH '' g)"
| "roff mp new_ss args g =
     Some (case mp of
        mp_mom \<Rightarrow> prints (''.HEADING 2 '' @ [DQ]) g
      | mp_mdoc \<Rightarrow> prints ''.Ss '' g
      | _ \<Rightarrow> prints ''.SS '' g)"
| "roff mp new_s4 args g =
     Some (case mp of
        mp_mom \<Rightarrow> prints (''.HEADING 3 '' @ [DQ]) g
      | mp_mdoc \<Rightarrow> prints ''.Ss '' g
      | _ \<Rightarrow> prints ''.SS '' g)"
| "roff mp man_ref args g =
     (case args of
        link # _ \<Rightarrow>
          (let link = cstr link in
           Some (case mp of
             mp_mdoc \<Rightarrow> prints (''.Xr '' @ link @ [NL]) g
           | mp_man \<Rightarrow>
               (if CHR 0x20 \<in> set link
                then prints ([BS] @ ''fB'' @ takeWhile (\<lambda>c. c \<noteq> CHR 0x20) link @ [BS] @ ''fP(''
                             @ tl (dropWhile (\<lambda>c. c \<noteq> CHR 0x20) link) @ '')'' @ [NL]) g
                else prints ([BS] @ ''fB'' @ link @ [BS] @ ''fP'' @ [NL]) g)
           | _ \<Rightarrow> prints (link @ [NL]) g))
      | _ \<Rightarrow> None)"
| "roff mp _ args g = Some g"

section \<open>The transducer \<^verbatim>\<open>md2roff\<close>\<close>

text \<open>
  The local state of \<^verbatim>\<open>md2roff\<close> inside its main loop. The read pointer \<^verbatim>\<open>p\<close> is an
  index into the source; the source has \<open>length src\<close> bytes and its terminating NUL is at
  index \<open>length src\<close>, so \<open>at src\<close> reads any index up to there. The pending text is the
  list \<open>d\<close> of the bytes between \<^verbatim>\<open>dest\<close> and the write pointer \<^verbatim>\<open>d\<close>; the buffer has
  \<open>DEST_SIZE\<close> bytes, and a write beyond it is undefined behaviour.
\<close>

definition DEST_SIZE :: nat where
  "DEST_SIZE = 64 * 1024"

record mdstate =
  p :: nat
  d :: string
  bline :: bool
  bcode :: bool
  bold :: bool
  italics :: bool
  g :: globals

text \<open>
  What one pass through the body of the loop does: go on with the loop (\<open>Next\<close>), leave the
  function by \<^verbatim>\<open>return\<close> (\<open>Return\<close>), end the process by \<^verbatim>\<open>exit(EXIT_FAILURE)\<close>
  (\<open>Exit\<close>), or run into undefined behaviour. \<open>Done\<close> is the normal end of the loop.
\<close>

datatype 'a outcome = Next 'a | Done 'a | Return 'a | Exit 'a | Undefined

definition after :: "globals option \<Rightarrow> (globals \<Rightarrow> 'a outcome) \<Rightarrow> 'a outcome" where
  "after r k = (case r of None \<Rightarrow> Undefined | Some g1 \<Rightarrow> k g1)"

text \<open>
  \<^verbatim>\<open>flushln(d, dest)\<close> on the globals; the caller resets the pending text. The terminating
  NUL is written at \<^verbatim>\<open>d\<close>, which must lie inside the buffer.
\<close>

definition flushln :: "string \<Rightarrow> globals \<Rightarrow> globals option" where
  "flushln buf g0 =
     (if buf \<noteq> [] then
        (if length buf < DEST_SIZE then
           (let t = dropWhile isspace (cstr buf)
            in if t \<noteq> [] then Some (puts (sqzdup t) g0) else Some g0)
         else None)
      else Some g0)"

text \<open>\<^verbatim>\<open>d = stradd(d, str)\<close> and \<^verbatim>\<open>*d ++ = c\<close>, with the bound of the buffer.\<close>

definition stradd :: "string \<Rightarrow> mdstate \<Rightarrow> (mdstate \<Rightarrow> mdstate outcome) \<Rightarrow> mdstate outcome" where
  "stradd str st k =
     (if length (d st) + length str \<le> DEST_SIZE then k (st\<lparr>d := d st @ str\<rparr>) else Undefined)"

subsection \<open>Inside a code block (lines 481--509)\<close>

definition code_block_step :: "macropackage_t \<Rightarrow> string \<Rightarrow> mdstate \<Rightarrow> mdstate outcome" where
  "code_block_step mp src st =
     after (flushln (d st) (g st)) (\<lambda>g1.
       if take 3 (drop (p st) src) = ''```'' then
         after (roff mp cblock_end [] g1) (\<lambda>g2.
           Next (st\<lparr>p := p st + 3, d := [], bcode := False, g := g2\<rparr>))
       else
         (let xchg_dot = (at src (p st) = CHR ''.'');
              g2 = (if xchg_dot
                    then (if mp = mp_mom then puts ''.ESC_CHAR !'' g1 else puts ''.cc !'' g1)
                    else g1);
              ln = println_text (drop (p st) src);
              g3 = prints ln g2;
              g4 = (if xchg_dot
                    then (if mp = mp_mom then puts ''.ESC_CHAR .'' g3 else puts ''!cc .'' g3)
                    else g3)
          in Next (st\<lparr>p := p st + length ln, d := [], g := g4\<rparr>)))"

subsection \<open>Backslash escapes (lines 513--529)\<close>

definition escape_char :: "char \<Rightarrow> char" where
  "escape_char c =
     (if c = CHR ''n'' then CHR 0x0A
      else if c = CHR ''r'' then CHR 0x0D
      else if c = CHR ''t'' then CHR 0x09
      else if c = CHR ''f'' then CHR 0x0C
      else if c = CHR ''b'' then CHR 0x08
      else if c = CHR ''a'' then CHR 0x07
      else if c = CHR ''e'' then CHR 0x1B
      else c)"

definition escape_step :: "string \<Rightarrow> mdstate \<Rightarrow> mdstate outcome" where
  "escape_step src st =
     stradd [escape_char (at src (p st + 1))] st (\<lambda>st1.
       Next (st1\<lparr>p := p st + 2, bline := False\<rparr>))"

subsection \<open>In line (lines 631--792)\<close>

text \<open>The newline branch with its test for a rule under a title (lines 631--669).\<close>

definition is_rule :: "string \<Rightarrow> bool" where
  "is_rule s = (take 3 s = ''==='' \<or> take 3 s = ''---'' \<or> take 3 s = ''***'')"

definition newline_step :: "macropackage_t \<Rightarrow> string \<Rightarrow> mdstate \<Rightarrow> mdstate outcome" where
  "newline_step mp src st =
     (if is_rule (drop (p st + 1) src) then
        (case strchr (drop (p st + 1) src) NL of
           None \<Rightarrow> Return st
         | Some k \<Rightarrow>
             (let p1 = p st + 1 + k in
              if d st = [] then Next (st\<lparr>p := p1 + 1\<rparr>)
              else if \<not> length (d st) < DEST_SIZE then Undefined
              else
                (let dest = cstr (d st) in
                 case strrchr dest NL of
                   Some j \<Rightarrow>
                     (let g1 = (if 0 < j then puts (take j dest) (g st) else g st) in
                      after (roff mp new_sh [] g1) (\<lambda>g2.
                        Next (st\<lparr>p := p1 + 1, d := [],
                                 g := prints (drop (j + 1) dest @ [NL]) g2\<rparr>)))
                 | None \<Rightarrow>
                     after (roff mp new_sh [] (g st)) (\<lambda>g1.
                       after (flushln (d st) g1) (\<lambda>g2.
                         Next (st\<lparr>p := p1 + 1, d := [], g := g2\<rparr>))))))
      else
        stradd [CHR 0x20] st (\<lambda>st1. Next (st1\<lparr>p := p st + 1, bline := True\<rparr>)))"

text \<open>Strong and emphasised text (lines 670--719).\<close>

definition boundary :: "char \<Rightarrow> bool" where
  "boundary pc = (pc \<in> set (''({[,.;`'' @ [SQ, DQ, CHR 0x20, TAB, NL]) \<or> pc = NUL)"

definition prev_char :: "string \<Rightarrow> nat \<Rightarrow> char" where
  "prev_char src i = (if 0 < i then at src (i - 1) else CHR 0x20)"

definition strong_step :: "macropackage_t \<Rightarrow> string \<Rightarrow> mdstate \<Rightarrow> mdstate outcome" where
  "strong_step mp src st =
     (if bold st then
        stradd (if mp = mp_mom then [BS] @ ''*[PREV]'' else [BS] @ ''fP'') (st\<lparr>bold := False\<rparr>)
          (\<lambda>st1. Next (st1\<lparr>p := p st + 2\<rparr>))
      else if boundary (prev_char src (p st)) then
        stradd (if mp = mp_mom then [BS] @ ''*[BD]'' else [BS] @ ''fB'') (st\<lparr>bold := True\<rparr>)
          (\<lambda>st1. Next (st1\<lparr>p := p st + 2\<rparr>))
      else
        stradd [at src (p st), at src (p st + 1)] st (\<lambda>st1. Next (st1\<lparr>p := p st + 2\<rparr>)))"

definition emphasis_step :: "macropackage_t \<Rightarrow> string \<Rightarrow> mdstate \<Rightarrow> mdstate outcome" where
  "emphasis_step mp src st =
     (if italics st then
        stradd (if mp = mp_mom then [BS] @ ''*[PREV]'' else [BS] @ ''fP'') (st\<lparr>italics := False\<rparr>)
          (\<lambda>st1. Next (st1\<lparr>p := p st + 1\<rparr>))
      else if boundary (prev_char src (p st)) then
        stradd (if mp = mp_mom then [BS] @ ''*[IT]'' else [BS] @ ''fI'') (st\<lparr>italics := True\<rparr>)
          (\<lambda>st1. Next (st1\<lparr>p := p st + 1\<rparr>))
      else
        stradd [at src (p st)] st (\<lambda>st1. Next (st1\<lparr>p := p st + 1\<rparr>)))"

text \<open>
  Inline code (lines 720--739). \<open>body\<close> is what the copying loop copies: the bytes up to
  the next backtick, or up to the end of the source; in the second case the loop ends in
  \<^verbatim>\<open>exit\<close>, after the message on the error stream.
\<close>

definition code_open :: "macropackage_t \<Rightarrow> string" where
  "code_open mp = (if mp = mp_mom then ''`'' @ [BS] @ ''*[CODE]'' else ''`'' @ [BS] @ ''f[CR]'')"

definition code_close :: "macropackage_t \<Rightarrow> string" where
  "code_close mp = (if mp = mp_mom then [BS] @ ''*[CODE OFF]'' @ [SQ] else [BS] @ ''fP'' @ [SQ])"

definition inline_code_step :: "macropackage_t \<Rightarrow> string \<Rightarrow> mdstate \<Rightarrow> mdstate outcome" where
  "inline_code_step mp src st =
     (let rest = drop (p st + 1) src;
          body = takeWhile (\<lambda>c. c \<noteq> CHR ''`'') rest
      in stradd (code_open mp) st (\<lambda>st1.
           stradd body st1 (\<lambda>st2.
             if length body = length rest then
               Exit (st2\<lparr>p := p st + 1 + length body,
                         g := (g st2)\<lparr>stderr := stderr (g st2) @ ''inline code (`) didnt closed.''\<rparr>\<rparr>)
             else
               stradd (code_close mp) st2 (\<lambda>st3.
                 Next (st3\<lparr>p := p st + 1 + length body + 1\<rparr>)))))"

text \<open>Links (lines 748--786). \<open>p1\<close> is the position of the bracket.\<close>

definition link_step :: "macropackage_t \<Rightarrow> string \<Rightarrow> mdstate \<Rightarrow> mdstate outcome" where
  "link_step mp src st =
     (let p1 = (if at src (p st) = CHR ''!'' then p st + 1 else p st);
          pstart = p1 + 1;
          literal = stradd [at src p1] st (\<lambda>st1. Next (st1\<lparr>p := p1 + 1\<rparr>))
      in case strchr (drop pstart src) (CHR '']'') of
           None \<Rightarrow> literal
         | Some k \<Rightarrow>
             (let pnext = pstart + k in
              if at src (pnext + 1) = CHR ''('' then
                (case strchr (drop (pnext + 2) src) (CHR '')'') of
                   None \<Rightarrow> literal
                 | Some m \<Rightarrow>
                     (let left = take k (drop pstart src);
                          rght = take m (drop (pnext + 2) src);
                          pfin = pnext + 2 + m
                      in after (flushln (d st) (g st)) (\<lambda>g1.
                           after (if rght = ''man'' then roff mp man_ref [left] g1
                                  else roff mp url_mark [left, rght] g1) (\<lambda>g2.
                             Next (st\<lparr>p := pfin + 1, d := [], g := g2\<rparr>)))))
              else literal))"

definition inline_step :: "macropackage_t \<Rightarrow> string \<Rightarrow> mdstate \<Rightarrow> mdstate outcome" where
  "inline_step mp src st =
     (let c = at src (p st); c1 = at src (p st + 1) in
      if c = NL then newline_step mp src st
      else if (c = CHR ''*'' \<and> c1 = CHR ''*'') \<or> (c = CHR ''_'' \<and> c1 = CHR ''_'') then
        strong_step mp src st
      else if c = CHR ''*'' \<or> c = CHR ''_'' then emphasis_step mp src st
      else if c = CHR ''`'' then inline_code_step mp src st
      else if c = CHR ''['' \<or> (c = CHR ''!'' \<and> c1 = CHR ''['') then link_step mp src st
      else stradd [c] st (\<lambda>st1. Next (st1\<lparr>p := p st + 1\<rparr>)))"

subsection \<open>Beginning of a line (lines 534--626)\<close>

text \<open>An empty line (lines 537--549).\<close>

definition blank_line_step :: "macropackage_t \<Rightarrow> string \<Rightarrow> mdstate \<Rightarrow> mdstate outcome" where
  "blank_line_step mp src st =
     after (flushln (d st) (g st)) (\<lambda>g1.
       after (if stk_list_p g1 \<noteq> 0
              then Option.bind (roff mp li_end [] g1) (\<lambda>g2.
                   Option.bind (roff mp lst_close [] g2) (\<lambda>g3.
                   Some (g3\<lparr>stk_list_p := stk_list_p g3 - 1\<rparr>)))
              else Some g1) (\<lambda>g4.
         after (roff mp par_end [] g4) (\<lambda>g5.
           Next (st\<lparr>p := p st + 1, d := [], bline := True, g := g5\<rparr>))))"

text \<open>
  A header (lines 550--585). The result is either the outcome of a path that ends in
  \<^verbatim>\<open>continue\<close>, or the state with which control goes on into the in-line part: after the
  title of a header of level 1 to 3 was printed, or unchanged but for the flushed text when
  no newline follows. The level counts the run of \<open>#\<close>, which is taken to be shorter than
  the range of \<^verbatim>\<open>int\<close>.
\<close>

definition header_step ::
  "macropackage_t \<Rightarrow> string \<Rightarrow> mdstate \<Rightarrow> (mdstate \<Rightarrow> mdstate outcome) \<Rightarrow> mdstate outcome" where
  "header_step mp src st fall =
     after (flushln (d st) (g st)) (\<lambda>g1.
       case strchr (drop (p st) src) NL of
         None \<Rightarrow> fall (st\<lparr>d := [], g := g1\<rparr>)
       | Some k \<Rightarrow>
           (if at src (p st + k - 1) \<noteq> CHR ''#'' then
              (let level = length (takeWhile (\<lambda>c. c = CHR ''#'') (drop (p st) src));
                   p1 = p st + level;
                   p2 = p1 + length (takeWhile (\<lambda>c. c = CHR 0x20 \<or> c = TAB) (drop p1 src));
                   ln = println_text (drop p2 src)
               in if level = 1 \<or> level = 2 then
                    after (roff mp new_sh [] g1) (\<lambda>g2.
                      fall (st\<lparr>p := p2 + length ln, d := [], g := prints ln g2\<rparr>))
                  else if level = 3 then
                    after (roff mp new_ss [] g1) (\<lambda>g2.
                      fall (st\<lparr>p := p2 + length ln, d := [], g := prints ln g2\<rparr>))
                  else if mp = mp_man then
                    Next (st\<lparr>p := p2 + length ln, d := [],
                             g := prints ([BS] @ ''fR'')
                                    (prints ln (prints (''.TP'' @ [NL] @ [BS] @ ''fB'') g1))\<rparr>)
                  else
                    after (roff mp new_s4 [] g1) (\<lambda>g2. Next (st\<lparr>p := p2, d := [], g := g2\<rparr>)))
            else
              (let ln = println_text (drop (p st) src) in
               after (roff mp box_open [] g1) (\<lambda>g2.
               after (roff mp ln_brk [] g2) (\<lambda>g3.
               after (roff mp ln_brk [] (prints ln g3)) (\<lambda>g4.
               after (roff mp box_close [] g4) (\<lambda>g5.
                 Next (st\<lparr>p := p st + length ln, d := [], g := g5\<rparr>))))))))"

text \<open>An item of an unordered list (lines 586--596).\<close>

definition ulist_step :: "macropackage_t \<Rightarrow> string \<Rightarrow> mdstate \<Rightarrow> mdstate outcome" where
  "ulist_step mp src st =
     after (flushln (d st) (g st)) (\<lambda>g1.
       after (if stk_list_p g1 \<noteq> 0 then roff mp li_end [] g1 else roff mp ul_open [] g1) (\<lambda>g2.
         after (roff mp li_open [] g2) (\<lambda>g3.
           Next (st\<lparr>p := p st + 1, d := [], g := g3\<rparr>))))"

text \<open>
  An item of an ordered list (lines 597--618). The digits are copied into \<^verbatim>\<open>num[16]\<close>
  with a terminating NUL, so a run of 16 digits or more writes beyond the array. When no
  dot follows the digits, the pointer goes back and control goes on into the in-line part.
\<close>

definition olist_step ::
  "macropackage_t \<Rightarrow> string \<Rightarrow> mdstate \<Rightarrow> (mdstate \<Rightarrow> mdstate outcome) \<Rightarrow> mdstate outcome" where
  "olist_step mp src st fall =
     (let num = takeWhile isdigit (drop (p st) src);
          p1 = p st + length num
      in if \<not> length num < 16 then Undefined
         else if at src p1 = CHR ''.'' then
           after (flushln (d st) (g st)) (\<lambda>g1.
             after (if stk_list_p g1 \<noteq> 0 then roff mp li_end [] g1 else roff mp ol_open [] g1) (\<lambda>g2.
               if stk_list_p g2 - 1 < MAX_LIST_SIZE \<and> stk_list_p g2 \<noteq> 0 then
                 after (roff mp li_open []
                          (g2\<lparr>stk_count := (stk_count g2)(stk_list_p g2 - 1 := atoi num)\<rparr>)) (\<lambda>g3.
                   Next (st\<lparr>p := p1 + 1 + length (takeWhile (\<lambda>c. c = CHR 0x20 \<or> c = TAB)
                                                      (drop (p1 + 1) src)),
                            d := [], g := g3\<rparr>))
               else Undefined))
         else fall st)"

text \<open>The opening fence of a code block (lines 619--625).\<close>

definition cblock_open_step :: "macropackage_t \<Rightarrow> string \<Rightarrow> mdstate \<Rightarrow> mdstate outcome" where
  "cblock_open_step mp src st =
     after (flushln (d st) (g st)) (\<lambda>g1.
       after (roff mp cblock_open [] g1) (\<lambda>g2.
         Next (st\<lparr>p := p st + 3, d := [], bcode := True, g := g2\<rparr>)))"

subsection \<open>The body of the main loop (lines 476--793)\<close>

definition md2roff_step :: "macropackage_t \<Rightarrow> string \<Rightarrow> mdstate \<Rightarrow> mdstate outcome" where
  "md2roff_step mp src st =
     (let c = at src (p st); c1 = at src (p st + 1) in
      if bcode st then code_block_step mp src st
      else if c = BS then escape_step src st
      else if bline st then
        (let st1 = st\<lparr>bline := False\<rparr> in
         if c = NL then blank_line_step mp src st1
         else if c = CHR ''#'' then header_step mp src st1 (inline_step mp src)
         else if (c1 = CHR 0x20 \<or> c1 = TAB) \<and> (c = CHR ''*'' \<or> c = CHR ''+'' \<or> c = CHR ''-'') then
           ulist_step mp src st1
         else if isdigit c then olist_step mp src st1 (inline_step mp src)
         else if take 3 (drop (p st) src) = ''```'' then cblock_open_step mp src st1
         else inline_step mp src st1)
      else inline_step mp src st)"

subsection \<open>The main loop and the document driver\<close>

text \<open>
  The loop \<^verbatim>\<open>while ( *p )\<close>. Reading \<^verbatim>\<open>*p\<close> beyond the terminating NUL of the source is
  undefined behaviour.
\<close>

function md2roff_loop :: "macropackage_t \<Rightarrow> string \<Rightarrow> mdstate \<Rightarrow> mdstate outcome" where
  "md2roff_loop mp src st =
     (if length src < p st then Undefined
      else if p st = length src then Done st
      else (case md2roff_step mp src st of
              Next st1 \<Rightarrow> md2roff_loop mp src st1
            | r \<Rightarrow> r))"
  by pat_completeness auto
termination
proof (relation "measure (\<lambda>(mp, src, st). length src + 1 - p st)")
  show "wf (measure (\<lambda>(mp, src, st). length src + 1 - p st))" by simp
next
  fix mp :: macropackage_t and src :: string and st st1 :: mdstate
  assume a: "\<not> length src < p st" "p st \<noteq> length src" "md2roff_step mp src st = Next st1"
  then have lt: "p st < length src" by simp
  have sa: "k (s\<lparr>d := d s @ str\<rparr>) = Next s'" if "stradd str s k = Next s'"
    for str s s' and k :: "mdstate \<Rightarrow> mdstate outcome"
    using that by (auto simp: stradd_def split: if_splits)
  have af: "\<exists>g1. r = Some g1 \<and> k g1 = Next s'" if "after r k = Next s'"
    for r s' and k :: "globals \<Rightarrow> mdstate outcome"
    using that by (auto simp: after_def split: option.splits)
  have pl: "(println_text s = []) = (s = [])" for s
    by (cases s) (auto simp: println_text_def Let_def)
  have inl: "p s < p s'" if "inline_step m src s = Next s'" for m s s'
    using that
    unfolding inline_step_def newline_step_def strong_step_def emphasis_step_def
      inline_code_step_def link_step_def Let_def
    by (auto split: if_splits option.splits dest!: sa af)
  have cb: "p st < p s'" if "code_block_step mp src st = Next s'" for s'
    using that lt unfolding code_block_step_def Let_def
    by (auto split: if_splits dest!: af simp: pl)
  have hd: "p st < p s'"
    if "header_step mp src (st\<lparr>bline := False\<rparr>) (inline_step mp src) = Next s'"
      and "at src (p st) = CHR ''#''" for s'
  proof -
    have ln: "0 < length (println_text (drop (p st) src))"
      using lt by (simp add: pl)
    have "drop (p st) src = CHR ''#'' # drop (Suc (p st)) src"
      using lt that(2) Cons_nth_drop_Suc[of "p st" src] by (simp add: at_def)
    then have lv: "0 < length (takeWhile (\<lambda>c. c = CHR ''#'') (drop (p st) src))"
      by simp
    show ?thesis
      using that(1) ln lv unfolding header_step_def Let_def
      by (auto split: if_splits option.splits dest!: af inl)
  qed
  have ol: "p st < p s'"
    if "olist_step mp src (st\<lparr>bline := False\<rparr>) (inline_step mp src) = Next s'" for s'
    using that unfolding olist_step_def Let_def
    by (auto split: if_splits dest!: af inl)
  have "p st < p st1"
    using a(3) cb[of st1] hd[of st1] ol[of st1] inl[of mp "st\<lparr>bline := False\<rparr>" st1] inl[of mp st st1]
    unfolding md2roff_step_def Let_def escape_step_def blank_line_step_def ulist_step_def
      cblock_open_step_def
    by (auto split: if_splits dest!: sa af)
  then show "((mp, src, st1), (mp, src, st)) \<in> measure (\<lambda>(mp, src, st). length src + 1 - p st)"
    using lt by simp
qed

text \<open>
  The lines the driver writes before the loop (lines 440--472), and the position from
  which the loop starts. The calendar date comes from the clock of the host; it is the
  argument \<open>now\<close>, the \<^verbatim>\<open>struct tm\<close> that \<^verbatim>\<open>localtime\<close> returns.
\<close>

record tm =
  tm_year :: int
  tm_mon :: int
  tm_mday :: int

definition th_synth :: "tm \<Rightarrow> string \<Rightarrow> string" where
  "th_synth now docname =
     ''.TH '' @ cstr docname @ '' 7 '' @ show_int (wrap32 (tm_year now + 1900)) @ ''-''
       @ show_int02 (wrap32 (tm_mon now + 1)) @ ''-'' @ show_int02 (tm_mday now)
       @ '' document'' @ [NL]"

definition preamble :: "macropackage_t \<Rightarrow> tm \<Rightarrow> string \<Rightarrow> string \<Rightarrow> globals \<Rightarrow> globals \<times> nat" where
  "preamble mp now docname src g0 =
     (let g1 = puts ([CHR ''.'', BS, DQ] @ '' x-roff document'') g0 in
      case mp of
        mp_mm \<Rightarrow> (puts ''.do mso m.tmac'' g1, 0)
      | mp_mom \<Rightarrow>
          (prints (''.START'' @ [NL])
             (prints (''.PRINTSTYLE TYPESET'' @ [NL])
                (prints (''.PAPER A4'' @ [NL])
                   (prints (''.AUTHOR '' @ [DQ] @ ''md2roff'' @ [DQ] @ [NL])
                      (prints (''.TITLE '' @ [DQ] @ cstr docname @ [DQ] @ [NL])
                         (puts ''.do mso mom.tmac'' g1))))), 0)
      | _ \<Rightarrow>
          (let g2 = (if mp = mp_mdoc then puts ''.do mso mdoc.tmac'' g1
                     else puts ''.do mso man.tmac'' g1)
           in if at src 0 = CHR ''#'' \<and> isspace (at src 1) then
                (let ln = println_text (drop 2 src)
                 in (prints ln (prints ''.TH '' g2), 2 + length ln))
              else (prints (th_synth now docname) g2, 0)))"

text \<open>
  \<^verbatim>\<open>md2roff(docname, source)\<close> with \<^verbatim>\<open>mpack\<close> equal to \<open>mp\<close>, started in the global
  state \<open>g0\<close>. The result is the global state in which the call returns or the process
  exits.
\<close>

definition md2roff_init :: "macropackage_t \<Rightarrow> tm \<Rightarrow> string \<Rightarrow> string \<Rightarrow> globals \<Rightarrow> mdstate" where
  "md2roff_init mp now docname src g0 =
     (let (g1, p0) = preamble mp now docname src (g0\<lparr>stk_list_p := 0\<rparr>)
      in \<lparr>p = p0, d = [], bline = True, bcode = False, bold = False, italics = False, g = g1\<rparr>)"

definition md2roff ::
  "macropackage_t \<Rightarrow> tm \<Rightarrow> string \<Rightarrow> string \<Rightarrow> globals \<Rightarrow> globals outcome" where
  "md2roff mp now docname source g0 =
     (let src = cstr source in
      case md2roff_loop mp src (md2roff_init mp now docname src g0) of
        Done st \<Rightarrow> after (flushln (d st) (g st)) Return
      | Next st \<Rightarrow> Undefined
      | Return st \<Rightarrow> Return (g st)
      | Exit st \<Rightarrow> Exit (g st)
      | Undefined \<Rightarrow> Undefined)"

text \<open>The global state when the program starts: the arrays are zeroed, nothing is written.\<close>

definition g_init :: globals where
  "g_init = \<lparr>stk_list = (\<lambda>_. none), stk_count = (\<lambda>_. 0), stk_list_p = 0,
             stdout = [], stderr = []\<rparr>"

text \<open>
  The states the loop goes through when it starts in \<open>st0\<close>: \<open>reaches mp src st0 st\<close> holds
  when the loop test is evaluated in \<open>st\<close>.
\<close>

inductive reaches :: "macropackage_t \<Rightarrow> string \<Rightarrow> mdstate \<Rightarrow> mdstate \<Rightarrow> bool"
  for mp :: macropackage_t and src :: string and st0 :: mdstate where
  reaches_start: "reaches mp src st0 st0"
| reaches_step: "reaches mp src st0 st \<Longrightarrow> p st < length src \<Longrightarrow> md2roff_step mp src st = Next st1
                 \<Longrightarrow> reaches mp src st0 st1"


text \<open>
  The test of lines 757--760 on the bytes after an opening bracket: the first closing
  bracket is followed at once by an opening parenthesis, and a closing parenthesis comes
  later.
\<close>

definition link_tail :: "string \<Rightarrow> bool" where
  "link_tail s =
     (case strchr s (CHR '']'') of
        None \<Rightarrow> False
      | Some k \<Rightarrow> at s (k + 1) = CHR ''('' \<and> strchr (drop (k + 2) s) (CHR '')'') \<noteq> None)"

text \<open>
  One run of the program on one document, from its initial global state: how it ends, and
  what it has written on the output and on the error stream.
\<close>

definition run :: "macropackage_t \<Rightarrow> tm \<Rightarrow> string \<Rightarrow> string \<Rightarrow> (string \<times> string) outcome" where
  "run mp now docname source =
     (case md2roff mp now docname source g_init of
        Return x \<Rightarrow> Return (stdout x, stderr x)
      | Exit x \<Rightarrow> Exit (stdout x, stderr x)
      | _ \<Rightarrow> Undefined)"

text \<open>The state in which an outcome leaves the program, when it is defined.\<close>

definition state_of :: "'a outcome \<Rightarrow> 'a option" where
  "state_of r = (case r of Next s \<Rightarrow> Some s | Done s \<Rightarrow> Some s | Return s \<Rightarrow> Some s
                 | Exit s \<Rightarrow> Some s | Undefined \<Rightarrow> None)"


section \<open>Properties of the squeezer\<close>

lemma isspace_blank: "isspace (CHR 0x20)"
  by (simp add: isspace_def)

lemma NUL_not_space: "\<not> isspace NUL"
  by (simp add: isspace_def NUL_def)

lemma sqz_scan_sqz:
  "sqz_scan bef rest lc out =
     out @ sqz (if bef = [] then None else Some (last bef)) rest lc"
  by (induction rest arbitrary: bef lc out) (auto simp: Let_def)


lemma sqz_skip:
  "sqz pv cs True = (case dropWhile isspace cs of [] \<Rightarrow> [] | n # ns \<Rightarrow> n # sqz (Some n) ns False)"
  by (induction cs arbitrary: pv) auto

lemma sqz_nf_id:
  "nf q t \<Longrightarrow> (lc \<longrightarrow> t = [] \<or> \<not> isspace (hd t)) \<Longrightarrow> (\<not> lc \<longrightarrow> \<not> isspace q)
     \<Longrightarrow> sqz (Some q) t lc = t"
proof (induction t arbitrary: q lc)
  case Nil
  then show ?case by simp
next
  case (Cons c cs)
  show ?case
  proof (cases "isspace c")
    case True
    with Cons.prems have lc: "\<not> lc" and c: "c = CHR 0x20" and cs: "cs \<noteq> []" "\<not> isspace (hd cs)"
      and al: "isalnum q \<or> isalnum (hd cs)" and n: "nf c cs"
      by auto
    from cs have dw: "dropWhile isspace cs = cs" by (cases cs) auto
    have "sqz (Some c) cs True = cs"
      using Cons.IH[of c True] n cs by simp
    then show ?thesis using True lc c cs al dw by (auto simp: Let_def)
  next
    case False
    with Cons.prems have n: "nf c cs" by simp
    have "sqz (Some c) cs False = cs"
      using Cons.IH[of c False] n False by simp
    then show ?thesis using False by simp
  qed
qed

lemma sqz_space_step:
  assumes "isspace c" "\<not> isspace q"
  shows "sqz (Some q) (c # cs) False =
     (if isalnum q \<or> (dropWhile isspace cs \<noteq> [] \<and> isalnum (hd (dropWhile isspace cs)))
      then [CHR 0x20] else []) @
     (case dropWhile isspace cs of [] \<Rightarrow> [] | n # ns \<Rightarrow> n # sqz (Some n) ns False)"
  using assms by (simp add: Let_def sqz_skip[of "Some c" cs])

lemma sqz_nfw:
  "\<not> isspace q \<Longrightarrow> nfw q (sqz (Some q) r False)"
proof (induction r arbitrary: q rule: length_induct)
  case (1 r)
  show ?case
  proof (cases r)
    case Nil then show ?thesis by simp
  next
    case (Cons c cs)
    show ?thesis
    proof (cases "isspace c")
      case False
      have "nfw c (sqz (Some c) cs False)" using 1 Cons False by simp
      then show ?thesis using Cons False by simp
    next
      case True
      have step: "sqz (Some q) r False =
          (if isalnum q \<or> (dropWhile isspace cs \<noteq> [] \<and> isalnum (hd (dropWhile isspace cs)))
           then [CHR 0x20] else []) @
          (case dropWhile isspace cs of [] \<Rightarrow> [] | n # ns \<Rightarrow> n # sqz (Some n) ns False)"
        unfolding Cons using True "1.prems" by (rule sqz_space_step)
      show ?thesis
      proof (cases "dropWhile isspace cs")
        case Nil
        show ?thesis unfolding step Nil by (simp add: isspace_blank)
      next
        case (Cons n ns)
        then have nn: "\<not> isspace n" using hd_dropWhile[of isspace cs] by auto
        have "length ns < length r"
          using Cons \<open>r = c # cs\<close> length_dropWhile_le[of isspace cs] by simp
        then have "nfw n (sqz (Some n) ns False)" using 1 nn by simp
        then show ?thesis unfolding step Cons using nn by (simp add: isspace_blank)
      qed
    qed
  qed
qed

lemma nfw_trim: "nfw q out \<Longrightarrow> nf q (trim1 out)"
proof (induction out arbitrary: q)
  case Nil then show ?case by (simp add: trim1_def)
next
  case (Cons c cs)
  show ?case
  proof (cases cs)
    case Nil
    then show ?thesis using Cons.prems by (auto simp: trim1_def)
  next
    case (Cons e es)
    then have t: "trim1 (c # cs) = c # trim1 cs" by (simp add: trim1_def)
    have ih: "nf c (trim1 cs)" using Cons.IH[of c] Cons.prems by (auto split: if_splits)
    have ne: "trim1 cs \<noteq> [] \<and> hd (trim1 cs) = hd cs" if "\<not> isspace (hd cs)"
      using that Cons by (cases es) (auto simp: trim1_def)
    show ?thesis using t ih Cons.prems \<open>cs = e # es\<close> ne by (auto split: if_splits)
  qed
qed

lemma nf_last0: "nf q t \<Longrightarrow> t \<noteq> [] \<Longrightarrow> \<not> isspace (last t)"
  by (induction t arbitrary: q) (auto split: if_splits)

lemma nf_last: "nf q t \<Longrightarrow> \<not> isspace q \<Longrightarrow> \<not> isspace (last (q # t))"
  using nf_last0[of q t] by auto

lemma sqz_no_NUL: "NUL \<notin> set r \<Longrightarrow> NUL \<notin> set (sqz pv r lc)"
  by (induction r arbitrary: pv lc) (auto simp: NUL_def)


lemma trim1_Cons: "\<not> isspace c \<Longrightarrow> trim1 (c # X) = c # trim1 X"
  by (cases X) (auto simp: trim1_def)

lemma trim1_append: "V \<noteq> [] \<Longrightarrow> trim1 (X @ V) = X @ trim1 V"
  by (simp add: trim1_def butlast_append)

lemma trim1_id: "X \<noteq> [] \<Longrightarrow> \<not> isspace (last X) \<Longrightarrow> trim1 X = X"
  by (simp add: trim1_def)

lemma cstr_id: "NUL \<notin> set s \<Longrightarrow> cstr s = s"
  by (auto simp: cstr_def takeWhile_eq_all_conv)

lemma cstr_no_NUL: "NUL \<notin> set (cstr s)"
  unfolding cstr_def by (induction s) auto

lemma trim1_set: "set (trim1 X) \<subseteq> set X"
  by (auto simp: trim1_def dest: in_set_butlastD)

lemma sqzdup_trim:
  "sqzdup source =
     trim1 (sqz (if takeWhile isspace (cstr source) = [] then None
                 else Some (last (takeWhile isspace (cstr source))))
              (dropWhile isspace (cstr source)) False)"
  by (simp add: sqzdup_def Let_def sqz_scan_sqz trim1_def)

lemma sqzdup_unfold:
  "sqzdup source =
     (case dropWhile isspace (cstr source) of [] \<Rightarrow> []
      | c # r \<Rightarrow> c # trim1 (sqz (Some c) r False))"
proof (cases "dropWhile isspace (cstr source)")
  case Nil
  show ?thesis unfolding sqzdup_trim Nil by (simp add: trim1_def)
next
  case (Cons c r)
  then have nc: "\<not> isspace c" using hd_dropWhile[of isspace "cstr source"] by auto
  show ?thesis unfolding sqzdup_trim Cons using nc by (simp add: trim1_Cons)
qed

lemma sqzdup_nf_id:
  assumes "\<not> isspace c" "nf c t" "NUL \<notin> set (c # t)"
  shows "sqzdup (c # t) = c # t"
proof -
  have "trim1 (c # t) = c # t" using nf_last[OF assms(2,1)] by (simp add: trim1_def)
  then have "trim1 t = t" using assms(1) by (simp add: trim1_Cons)
  then show ?thesis
    using assms by (simp add: sqzdup_unfold cstr_id sqz_nf_id)
qed

lemma sqzdup_shape:
  "sqzdup x = [] \<or> (\<exists>c t. sqzdup x = c # t \<and> \<not> isspace c \<and> nf c t \<and> NUL \<notin> set (c # t))"
proof (cases "dropWhile isspace (cstr x)")
  case Nil
  show ?thesis unfolding sqzdup_unfold Nil by simp
next
  case (Cons c r)
  then have nc: "\<not> isspace c" using hd_dropWhile[of isspace "cstr x"] by auto
  have "set (c # r) \<subseteq> set (cstr x)" using set_dropWhileD[of _ isspace "cstr x"] Cons by auto
  then have nn: "NUL \<notin> set (c # r)" using cstr_no_NUL[of x] by blast
  then have "NUL \<notin> set (sqz (Some c) r False)" by (simp add: sqz_no_NUL)
  then have n2: "NUL \<notin> set (trim1 (sqz (Some c) r False))" using trim1_set by blast
  have "nf c (trim1 (sqz (Some c) r False))" using nc by (simp add: sqz_nfw nfw_trim)
  then show ?thesis unfolding sqzdup_unfold Cons using nc nn n2 by simp
qed

text \<open>
  Claim C8. The squeezer is idempotent: squeezing an already squeezed text changes nothing.
\<close>

theorem sqzdup_idempotent: "sqzdup (sqzdup x) = sqzdup x"
  using sqzdup_shape[of x] by (auto simp: sqzdup_nf_id) (simp add: sqzdup_def cstr_def)



lemma dropWhile_last:
  "u \<noteq> [] \<Longrightarrow> \<not> P (last u) \<Longrightarrow> dropWhile P u \<noteq> [] \<and> last (dropWhile P u) = last u"
  by (induction u) (auto split: if_splits)

lemma sqz_last:
  "u \<noteq> [] \<Longrightarrow> \<not> isspace (last u) \<Longrightarrow> sqz pv u lc \<noteq> [] \<and> last (sqz pv u lc) = last u"
proof (induction u arbitrary: pv lc)
  case Nil then show ?case by simp
next
  case (Cons c u)
  show ?case
  proof (cases "u = []")
    case True then show ?thesis using Cons.prems by simp
  next
    case False
    then have "sqz (Some c) u b \<noteq> [] \<and> last (sqz (Some c) u b) = last u" for b
      using Cons.IH Cons.prems by simp
    then show ?thesis using False by simp
  qed
qed

lemma sqz_append:
  "u \<noteq> [] \<Longrightarrow> \<not> isspace (last u) \<Longrightarrow>
     sqz pv (u @ w) lc = sqz pv u lc @ sqz (Some (last u)) w False"
proof (induction u arbitrary: pv lc)
  case Nil then show ?case by simp
next
  case (Cons c u)
  show ?case
  proof (cases "u = []")
    case True then show ?thesis using Cons.prems by simp
  next
    case False
    then have ih: "sqz (Some c) (u @ w) b = sqz (Some c) u b @ sqz (Some (last u)) w False" for b
      using Cons.IH Cons.prems by simp
    have "last u \<in> set u" using False by simp
    then have dw: "dropWhile isspace (u @ w) = dropWhile isspace u @ w"
      using Cons.prems False dropWhile_append1[of "last u" u isspace w] by simp
    have ne: "dropWhile isspace u \<noteq> []" using \<open>last u \<in> set u\<close> Cons.prems False by auto
    show ?thesis using False ih dw ne by (simp add: Let_def)
  qed
qed

lemma sqz_fresh: "v \<noteq> [] \<longrightarrow> \<not> isspace (hd v) \<Longrightarrow>
   (case v of [] \<Rightarrow> [] | n # ns \<Rightarrow> n # sqz (Some n) ns False) = sqz None v False"
  by (cases v) auto

lemma sqzdup_fresh:
  assumes "v \<noteq> [] \<longrightarrow> \<not> isspace (hd v)" "NUL \<notin> set v"
  shows "sqzdup v = trim1 (sqz None v False)"
proof -
  have "dropWhile isspace v = v" "takeWhile isspace v = []" using assms(1) by (cases v; simp)+
  then show ?thesis using assms(2) by (simp add: sqzdup_trim cstr_id)
qed

lemma sqzdup_run_eq:
  assumes nul: "NUL \<notin> set (u @ ws @ v)"
    and u: "u \<noteq> []" "\<not> isspace (last u)"
    and ws: "ws \<noteq> []" "\<forall>c\<in>set ws. isspace c"
    and v: "v \<noteq> [] \<longrightarrow> \<not> isspace (hd v)"
  shows "sqzdup (u @ ws @ v) =
           sqzdup u @ (if v \<noteq> [] \<and> (isalnum (last u) \<or> isalnum (hd v)) then [CHR 0x20] else [])
             @ sqzdup v"
proof -
  define pv where "pv = (if takeWhile isspace u = [] then None else Some (last (takeWhile isspace u)))"
  define u1 where "u1 = dropWhile isspace u"
  have lu: "last u \<in> set u" using u by simp
  have u1: "u1 \<noteq> []" "last u1 = last u"
    using dropWhile_last[of u isspace] u unfolding u1_def by auto
  have tw: "takeWhile isspace (u @ ws @ v) = takeWhile isspace u"
    using lu u takeWhile_append1[of "last u" u isspace "ws @ v"] by simp
  have dw: "dropWhile isspace (u @ ws @ v) = u1 @ ws @ v"
    using lu u dropWhile_append1[of "last u" u isspace "ws @ v"] unfolding u1_def by simp
  define U where "U = sqz pv u1 False"
  have Ul: "U \<noteq> []" "\<not> isspace (last U)" using sqz_last[of u1 pv False] u1 u by (auto simp: U_def)
  have "sqzdup u = trim1 U"
    using nul by (simp add: sqzdup_trim cstr_id pv_def u1_def U_def)
  then have su: "sqzdup u = U" using Ul by (simp add: trim1_id)
  obtain c ws' where wsc: "ws = c # ws'" using ws by (cases ws) auto
  have dv: "dropWhile isspace (ws' @ v) = v"
    using ws v wsc by (cases v) (auto simp: dropWhile_append2)
  define V where "V = sqz None v False"
  have sv: "sqzdup v = trim1 V" using v nul by (simp add: sqzdup_fresh V_def)
  have W: "sqz (Some (last u)) (ws @ v) False =
      (if isalnum (last u) \<or> (v \<noteq> [] \<and> isalnum (hd v)) then [CHR 0x20] else []) @ V"
    using sqz_space_step[of c "last u" "ws' @ v"] ws u wsc sqz_fresh[OF v]
    by (simp add: dv V_def del: sqz.simps)
  have "sqzdup (u @ ws @ v) = trim1 (sqz pv (u1 @ ws @ v) False)"
    using nul by (simp add: sqzdup_trim cstr_id tw dw pv_def del: sqz.simps)
  also have "sqz pv (u1 @ ws @ v) False = U @ sqz (Some (last u)) (ws @ v) False"
    using sqz_append[of u1 pv "ws @ v" False] u1 u by (simp add: U_def)
  finally have tot: "sqzdup (u @ ws @ v) =
     trim1 (U @ (if isalnum (last u) \<or> (v \<noteq> [] \<and> isalnum (hd v)) then [CHR 0x20] else []) @ V)"
    using W by simp
  show ?thesis
  proof (cases "v = []")
    case True
    then have "V = []" by (simp add: V_def)
    then show ?thesis using tot True su sv Ul
      by (auto simp: trim1_def isspace_blank)
  next
    case False
    then have "V \<noteq> []" using v by (cases v) (auto simp: V_def)
    then have "trim1 (X @ V) = X @ trim1 V" for X by (rule trim1_append)
    from this[of "U @ (if isalnum (last u) \<or> (v \<noteq> [] \<and> isalnum (hd v)) then [CHR 0x20] else [])"]
    show ?thesis using tot False su sv by auto
  qed
qed

lemma sqzdup_no_edge_space:
  "sqzdup x \<noteq> [] \<Longrightarrow> \<not> isspace (hd (sqzdup x)) \<and> \<not> isspace (last (sqzdup x))"
  using sqzdup_shape[of x] nf_last by auto

text \<open>
  Claim C2, as the code has it. A run of whitespace between two non-blank bytes becomes
  one blank when the byte before the run is alphanumeric or the first byte after it is
  (one of the two suffices), and disappears otherwise; a run at the end of the text
  disappears; and a squeezed text neither starts nor ends with whitespace.
\<close>

theorem sqzdup_run:
  assumes "NUL \<notin> set (u @ ws @ v)"
    and "u \<noteq> []" and "\<not> isspace (last u)"
    and "ws \<noteq> []" and "\<forall>c\<in>set ws. isspace c"
    and "v \<noteq> [] \<longrightarrow> \<not> isspace (hd v)"
  shows "sqzdup (u @ ws @ v) =
           sqzdup u @ (if v \<noteq> [] \<and> (isalnum (last u) \<or> isalnum (hd v)) then [CHR 0x20] else [])
             @ sqzdup v
         \<and> (sqzdup x \<noteq> [] \<longrightarrow> \<not> isspace (hd (sqzdup x)) \<and> \<not> isspace (last (sqzdup x)))"
  using sqzdup_run_eq[OF assms] sqzdup_no_edge_space[of x] by blast

theorem sqzdup_run_witness:
  "sqzdup (''ab'' @ [CHR 0x20, CHR 0x09] @ ''.c'') = sqzdup ''ab'' @ '' '' @ sqzdup ''.c''
   \<and> sqzdup (''=-'' @ [CHR 0x20, CHR 0x0A] @ ''.c'') = sqzdup ''=-'' @ sqzdup ''.c''
   \<and> sqzdup (''ab'' @ [CHR 0x20, CHR 0x20] @ []) = sqzdup ''ab''
   \<and> sqzdup '' a  '' \<noteq> [] \<and> \<not> isspace (last (sqzdup '' a  ''))"
  using sqzdup_run[of "''ab''" "[CHR 0x20, CHR 0x09]" "''.c''" "'' a  ''"]
        sqzdup_run[of "''=-''" "[CHR 0x20, CHR 0x0A]" "''.c''" "'' a  ''"]
        sqzdup_run[of "''ab''" "[CHR 0x20, CHR 0x20]" "[]" "'' a  ''"]
  by (simp add: isspace_def isalnum_def NUL_def sqzdup_def cstr_def)

text \<open>
  Claim C2 as stated asks for both neighbours of the run to be alphanumeric. In
  \<^verbatim>\<open>a .\<close> only the byte before the blank is, and the blank is kept.
\<close>

theorem sqzdup_both_alnum_counterexample:
  "\<not> isalnum (hd ''.'') \<and>
   sqzdup (''a'' @ '' '' @ ''.'') = ''a .'' \<and>
   sqzdup (''a'' @ '' '' @ ''.'') \<noteq>
     sqzdup ''a'' @ (if isalnum (last ''a'') \<and> isalnum (hd ''.'') then '' '' else []) @ sqzdup ''.''"
  by (simp add: isspace_def isalnum_def NUL_def sqzdup_def cstr_def)

section \<open>Properties of the transducer\<close>

declare md2roff_loop.simps [simp del]

lemmas eval_defs = run_def md2roff_def md2roff_init_def preamble_def md2roff_loop.simps md2roff_step_def
  inline_step_def newline_step_def strong_step_def emphasis_step_def inline_code_step_def link_step_def
  code_block_step_def escape_step_def blank_line_step_def header_step_def ulist_step_def olist_step_def
  cblock_open_step_def stradd_def flushln_def after_def at_def strchr_def strrchr_def println_text_def
  puts_def prints_def cstr_def sqzdup_def isspace_def isalnum_def isdigit_def NUL_def NL_def BS_def DQ_def
  SQ_def TAB_def g_init_def DEST_SIZE_def MAX_LIST_SIZE_def is_rule_def boundary_def prev_char_def
  code_open_def code_close_def escape_char_def stk_push_def roff_li_open_man_def atoi_def wrap32_def
  digit_val_def show_int_def show_int02_def show_nat.simps th_synth_def Let_def

lemma at_drop: "at (drop n s) i = at s (n + i)"
  by (auto simp: at_def)

lemma at_in_range: "at s i \<noteq> NUL \<Longrightarrow> i < length s"
  by (auto simp: at_def split: if_splits)

lemma unset_bline: "\<not> bline st \<Longrightarrow> st\<lparr>bline := False\<rparr> = st"
  by (cases st) simp

lemma take3_at: "take 3 (drop i s) = [a, b, c] \<Longrightarrow> at s i = a"
  by (cases "drop i s") (auto simp: at_def dest: arg_cong[where f = hd] simp: hd_drop_conv_nth)

lemma step_inline:
  assumes "\<not> bcode st" and "at src (p st) \<noteq> BS"
    and "at src (p st) \<noteq> NL" and "at src (p st) \<noteq> CHR ''#''"
    and "at src (p st) \<notin> {CHR ''*'', CHR ''+'', CHR ''-''}"
    and "\<not> isdigit (at src (p st))"
    and "bline st \<longrightarrow> take 3 (drop (p st) src) \<noteq> ''```''"
  shows "md2roff_step mp src st = inline_step mp src (st\<lparr>bline := False\<rparr>)"
  using assms by (auto simp: md2roff_step_def Let_def unset_bline)

lemma link_step_literal:
  assumes "at src (p st) = CHR ''['' \<or> (at src (p st) = CHR ''!'' \<and> at src (p st + 1) = CHR ''['')"
    and "p1 = (if at src (p st) = CHR ''!'' then p st + 1 else p st)"
    and "\<not> link_tail (drop (p1 + 1) src)"
    and "length (d st) < DEST_SIZE"
  shows "link_step mp src st = Next (st\<lparr>p := p1 + 1, d := d st @ ''[''\<rparr>)"
  using assms
  by (auto simp: link_step_def link_tail_def Let_def stradd_def at_drop add.commute add.left_commute
           split: option.splits)

text \<open>
  Claim C10. When the bytes after the bracket of \<^verbatim>\<open>[\<close> or \<^verbatim>\<open>![\<close> do not form the tail of a
  link, the bracket alone is appended to the pending text, an exclamation mark before it
  is dropped, and scanning goes on at the byte after the bracket. The test looks at the
  first closing bracket only, so it fails in particular when no closing bracket at all is
  followed by a parenthesised target.
\<close>

theorem link_fail_literal:
  assumes "\<not> bcode st"
    and "at src (p st) = CHR ''['' \<or> (at src (p st) = CHR ''!'' \<and> at src (p st + 1) = CHR ''['')"
    and "p1 = (if at src (p st) = CHR ''!'' then p st + 1 else p st)"
    and "\<not> link_tail (drop (p1 + 1) src)"
    and "length (d st) < DEST_SIZE"
  shows "md2roff_step mp src st = Next (st\<lparr>bline := False, p := p1 + 1, d := d st @ ''[''\<rparr>)"
proof -
  let ?st = "st\<lparr>bline := False\<rparr>"
  have c: "at src (p st) = CHR ''['' \<or> at src (p st) = CHR ''!''" using assms(2) by auto
  have "md2roff_step mp src st = inline_step mp src ?st"
    using assms(1) c by (intro step_inline) (auto simp: BS_def NL_def isdigit_def dest: take3_at)
  also have "\<dots> = link_step mp src ?st"
    using assms(2) by (auto simp: inline_step_def Let_def NL_def)
  also have "\<dots> = Next (?st\<lparr>p := p1 + 1, d := d ?st @ ''[''\<rparr>)"
    using assms by (intro link_step_literal) auto
  finally show ?thesis by simp
qed

theorem link_fail_literal_witness:
  "\<not> link_tail (drop 2 ''![x] y'') \<and>
   md2roff_step mp_man ''![x] y''
     \<lparr>p = 0, d = [], bline = True, bcode = False, bold = False, italics = False, g = g_init\<rparr>
   = Next \<lparr>p = 2, d = ''['', bline = False, bcode = False, bold = False, italics = False, g = g_init\<rparr> \<and>
   \<not> link_tail (drop 3 ''ab[x](y'') \<and>
   md2roff_step mp_mom ''ab[x](y''
     \<lparr>p = 2, d = ''ab'', bline = False, bcode = False, bold = False, italics = False, g = g_init\<rparr>
   = Next \<lparr>p = 3, d = ''ab['', bline = False, bcode = False, bold = False, italics = False, g = g_init\<rparr>"
  using link_fail_literal[of "\<lparr>p = 0, d = [], bline = True, bcode = False, bold = False,
                               italics = False, g = g_init\<rparr>" "''![x] y''" 1 mp_man]
        link_fail_literal[of "\<lparr>p = 2, d = ''ab'', bline = False, bcode = False, bold = False,
                               italics = False, g = g_init\<rparr>" "''ab[x](y''" 2 mp_mom]
  by (simp add: link_tail_def strchr_def at_def DEST_SIZE_def NUL_def)

















text \<open>
  Claim C7 fails on the code. The input \<^verbatim>\<open>abc\<close>, newline, \<^verbatim>\<open>---\<close> with no newline at the end
  takes the \<^verbatim>\<open>return\<close> of line 639: the conversion returns normally, and the pending text
  \<^verbatim>\<open>abc\<close> is never written. Only the two lines of the preamble are on the output.
\<close>

theorem early_return_drops_text:
  "run mp_mm \<lparr>tm_year = 126, tm_mon = 9, tm_mday = 30\<rparr> ''doc'' (''abc'' @ [NL] @ ''---'')
     = Return ([CHR ''.'', BS, DQ] @ '' x-roff document'' @ [NL] @ ''.do mso m.tmac'' @ [NL], [])"
  by (simp add: eval_defs)



lemma flushln_frame:
  "flushln b g0 = Some g1 \<Longrightarrow>
     stk_list_p g1 = stk_list_p g0 \<and> stk_list g1 = stk_list g0 \<and> stk_count g1 = stk_count g0 \<and>
     stderr g1 = stderr g0"
  by (auto simp: flushln_def puts_def prints_def Let_def split: if_splits)






lemma roff_depth:
  "roff mp ty args g0 = Some g1 \<Longrightarrow>
     stk_list_p g1 = (if ty = ol_open \<or> ty = ul_open then stk_list_p g0 + 1 else stk_list_p g0)"
  by (cases ty; cases mp)
     (auto simp: puts_def prints_def stk_push_def roff_li_open_man_def Let_def
           split: if_splits list.splits)

lemma after_state:
  "state_of (after r k) = Some s' \<Longrightarrow> \<exists>g1. r = Some g1 \<and> state_of (k g1) = Some s'"
  by (auto simp: after_def state_of_def split: option.splits)

lemma stradd_state:
  "state_of (stradd str s k) = Some s' \<Longrightarrow> state_of (k (s\<lparr>d := d s @ str\<rparr>)) = Some s'"
  by (auto simp: stradd_def state_of_def split: if_splits)

lemma state_of_simps [simp]:
  "state_of (Next s) = Some s" "state_of (Return s) = Some s" "state_of (Exit s) = Some s"
  "state_of (Done s) = Some s" "state_of Undefined = None"
  by (simp_all add: state_of_def)

lemma prints_fields [simp]:
  "stk_list_p (prints s g0) = stk_list_p g0" "stk_list (prints s g0) = stk_list g0"
  "stk_count (prints s g0) = stk_count g0" "stderr (prints s g0) = stderr g0"
  "stdout (prints s g0) = stdout g0 @ s"
  by (simp_all add: prints_def)

lemma puts_fields [simp]:
  "stk_list_p (puts s g0) = stk_list_p g0" "stk_list (puts s g0) = stk_list g0"
  "stk_count (puts s g0) = stk_count g0" "stderr (puts s g0) = stderr g0"
  "stdout (puts s g0) = stdout g0 @ cstr s @ [NL]"
  by (simp_all add: puts_def)

lemma roff_depthE:
  assumes "roff mp ty args g0 = Some g1"
  obtains "stk_list_p g1 = (if ty = ol_open \<or> ty = ul_open then stk_list_p g0 + 1 else stk_list_p g0)"
  using roff_depth[OF assms] by blast

lemma flushln_depthE:
  assumes "flushln b g0 = Some g1"
  obtains "stk_list_p g1 = stk_list_p g0"
  using flushln_frame[OF assms] by blast

lemma inline_step_depth:
  "state_of (inline_step mp src s) = Some s' \<Longrightarrow> stk_list_p (g s') = stk_list_p (g s)"
  unfolding inline_step_def newline_step_def strong_step_def emphasis_step_def
    inline_code_step_def link_step_def Let_def
  by (auto split: if_splits option.splits dest!: stradd_state after_state
           elim!: roff_depthE flushln_depthE simp del: roff.simps)

lemma inline_step_depthE:
  assumes "state_of (inline_step mp src s) = Some s'"
  obtains "stk_list_p (g s') = stk_list_p (g s)"
  using inline_step_depth[OF assms] by blast

lemma header_step_depth:
  assumes "state_of (header_step mp src s (inline_step mp src)) = Some s'"
  shows "stk_list_p (g s') = stk_list_p (g s)"
  using assms unfolding header_step_def Let_def
  by (auto split: if_splits option.splits dest!: after_state
           elim!: roff_depthE flushln_depthE inline_step_depthE simp del: roff.simps)

lemma olist_step_depth:
  assumes "state_of (olist_step mp src s (inline_step mp src)) = Some s'"
  shows "stk_list_p (g s') = stk_list_p (g s) \<or> (stk_list_p (g s) = 0 \<and> stk_list_p (g s') = 1)"
  using assms unfolding olist_step_def Let_def
  by (auto split: if_splits option.splits dest!: after_state
           elim!: roff_depthE flushln_depthE inline_step_depthE simp del: roff.simps)

lemma step_depth:
  assumes "state_of (md2roff_step mp src st) = Some st'"
  shows "stk_list_p (g st') = stk_list_p (g st) \<or>
         (stk_list_p (g st) = 0 \<and> stk_list_p (g st') = 1) \<or>
         (0 < stk_list_p (g st) \<and> stk_list_p (g st') = stk_list_p (g st) - 1)"
proof -
  have a: "g (st\<lparr>bline := False\<rparr>) = g st" by simp
  show ?thesis
    using assms a
      header_step_depth[of mp src "st\<lparr>bline := False\<rparr>" st']
      olist_step_depth[of mp src "st\<lparr>bline := False\<rparr>" st']
      inline_step_depth[of mp src "st\<lparr>bline := False\<rparr>" st']
      inline_step_depth[of mp src st st']
    unfolding md2roff_step_def Let_def escape_step_def blank_line_step_def ulist_step_def
      cblock_open_step_def code_block_step_def
    by (auto split: if_splits option.splits Option.bind_splits dest!: stradd_state after_state
             elim!: roff_depthE flushln_depthE simp del: roff.simps)
qed

lemma step_depth_le1:
  "state_of (md2roff_step mp src st) = Some st' \<Longrightarrow> stk_list_p (g st) \<le> 1 \<Longrightarrow> stk_list_p (g st') \<le> 1"
  using step_depth[of mp src st st'] by auto

lemma reaches_depth:
  "reaches mp src st0 st \<Longrightarrow> stk_list_p (g st0) \<le> 1 \<Longrightarrow> stk_list_p (g st) \<le> 1"
proof (induction rule: reaches.induct)
  case reaches_start
  then show ?case by simp
next
  case (reaches_step st st1)
  then show ?case using step_depth_le1[of mp src st st1] by simp
qed

lemma loop_depth:
  "state_of (md2roff_loop mp src st) = Some st' \<Longrightarrow> stk_list_p (g st) \<le> 1 \<Longrightarrow> stk_list_p (g st') \<le> 1"
proof (induction mp src st rule: md2roff_loop.induct)
  case (1 mp src st)
  show ?case
  proof (cases "p st < length src")
    case False
    then show ?thesis using "1.prems" by (subst (asm) md2roff_loop.simps) (auto split: if_splits)
  next
    case True
    show ?thesis
    proof (cases "md2roff_step mp src st")
      case (Next st1)
      then have "md2roff_loop mp src st = md2roff_loop mp src st1"
        using True by (subst md2roff_loop.simps) simp
      moreover have "stk_list_p (g st1) \<le> 1"
        using step_depth_le1[of mp src st st1] Next "1.prems"(2) by simp
      ultimately show ?thesis using "1.IH"[of st1] True Next "1.prems"(1) by simp
    qed (use True "1.prems" step_depth_le1[of mp src st st'] in
          \<open>subst (asm) md2roff_loop.simps, auto\<close>)+
  qed
qed

lemma init_depth: "stk_list_p (g (md2roff_init mp now docname src g0)) = 0"
  by (cases mp) (auto simp: md2roff_init_def preamble_def Let_def)

lemma md2roff_depth:
  assumes "state_of (md2roff mp now docname source g0) = Some g1"
  shows "stk_list_p g1 \<le> 1"
proof -
  let ?src = "cstr source"
  let ?st0 = "md2roff_init mp now docname ?src g0"
  have i: "stk_list_p (g ?st0) \<le> 1" by (simp add: init_depth)
  show ?thesis
  proof (cases "md2roff_loop mp ?src ?st0")
    case (Done st)
    then have "stk_list_p (g st) \<le> 1" using loop_depth[of mp ?src ?st0 st] i by simp
    then show ?thesis using assms Done
      by (auto simp: md2roff_def Let_def dest!: after_state elim!: flushln_depthE)
  next
    case (Return st)
    then have "stk_list_p (g st) \<le> 1" using loop_depth[of mp ?src ?st0 st] i by simp
    then show ?thesis using assms Return by (auto simp: md2roff_def Let_def)
  next
    case (Exit st)
    then have "stk_list_p (g st) \<le> 1" using loop_depth[of mp ?src ?st0 st] i by simp
    then show ?thesis using assms Exit by (auto simp: md2roff_def Let_def)
  qed (use assms in \<open>auto simp: md2roff_def Let_def\<close>)
qed

text \<open>
  Claim C9. The depth of the list stack is 0 when the loop starts; every state the loop
  goes through has a depth of at most 1, below the capacity of the arrays; one pass through
  the loop raises the depth only from 0 to 1 and lowers it by at most one; and the depth is
  at most 1 when the conversion returns or exits.
\<close>

theorem list_stack_depth:
  "stk_list_p (g (md2roff_init mp now docname src g0)) = 0 \<and>
   (reaches mp src (md2roff_init mp now docname src g0) st \<longrightarrow>
      stk_list_p (g st) \<le> 1 \<and> stk_list_p (g st) < MAX_LIST_SIZE) \<and>
   (state_of (md2roff_step mp src st1) = Some st2 \<longrightarrow>
      (stk_list_p (g st1) < stk_list_p (g st2) \<longrightarrow> stk_list_p (g st1) = 0 \<and> stk_list_p (g st2) = 1) \<and>
      stk_list_p (g st1) \<le> stk_list_p (g st2) + 1) \<and>
   (state_of (md2roff mp now docname source g0) = Some g1 \<longrightarrow> stk_list_p g1 \<le> 1)"
  using init_depth[of mp now docname src g0]
    reaches_depth[of mp src "md2roff_init mp now docname src g0" st]
    step_depth[of mp src st1 st2] md2roff_depth[of mp now docname source g0 g1]
  by (auto simp: MAX_LIST_SIZE_def)

theorem list_stack_depth_witness:
  "reaches mp_mm ''- a'' (md2roff_init mp_mm \<lparr>tm_year = 126, tm_mon = 9, tm_mday = 30\<rparr> ''doc'' ''- a'' g_init)
     (md2roff_init mp_mm \<lparr>tm_year = 126, tm_mon = 9, tm_mday = 30\<rparr> ''doc'' ''- a'' g_init) \<and>
   stk_list_p (g (md2roff_init mp_mm \<lparr>tm_year = 126, tm_mon = 9, tm_mday = 30\<rparr> ''doc'' ''- a'' g_init)) < MAX_LIST_SIZE \<and>
   (\<exists>st2. md2roff_step mp_mm ''- a''
            (md2roff_init mp_mm \<lparr>tm_year = 126, tm_mon = 9, tm_mday = 30\<rparr> ''doc'' ''- a'' g_init) = Next st2 \<and>
          stk_list_p (g st2) = 1) \<and>
   (\<exists>g1. md2roff mp_mm \<lparr>tm_year = 126, tm_mon = 9, tm_mday = 30\<rparr> ''doc'' ''- a'' g_init = Return g1 \<and>
         stk_list_p g1 \<le> 1)"
proof -
  let ?now = "\<lparr>tm_year = 126, tm_mon = 9, tm_mday = 30\<rparr>"
  let ?st0 = "md2roff_init mp_mm ?now ''doc'' ''- a'' g_init"
  have r: "reaches mp_mm ''- a'' ?st0 ?st0" by (rule reaches_start)
  obtain st2 where s: "md2roff_step mp_mm ''- a'' ?st0 = Next st2" "stk_list_p (g st2) \<noteq> 0"
    by (simp add: eval_defs)
  obtain g1 where m: "md2roff mp_mm ?now ''doc'' ''- a'' g_init = Return g1"
    by (simp add: eval_defs)
  show ?thesis
    using list_stack_depth[of mp_mm ?now "''doc''" "''- a''" g_init ?st0 ?st0 st2 "''- a''" g1] r s m
    by auto
qed































end
